theory Spec2Isabelle
  imports Complex_Main "HOL-Library.Sublist" "HOL-Library.Word"
begin

section \<open>The validation script \<open>onnx_validate_furiosa_runtime.py\<close>\<close>

text \<open>
  The script parses its arguments, builds a loader, picks the model artifact from the
  extension of \<open>--model-input\<close>, creates a session, runs every batch of the loader through
  it, keeps three running averages (batch time, top-1, top-5), prints a progress line every
  \<open>print_freq\<close> batches and, after the loop, a summary line and the average latency.

  What the script takes from outside is data of the model:
  \<^item> the file system is a map from paths to file contents;
  \<^item> the loader is the list of its batches, each with the output \<open>session.run\<close> returned
    for it and the clock readings taken while it was processed;
  \<^item> \<open>np.argsort\<close> is a parameter \<open>asort\<close>: numpy's default sort is not stable, so the
    order of equal scores is not fixed, and every theorem holds for any function that
    returns a sorting permutation of each row (\<open>valid_argsort\<close>).

  The calls into the loader and the runtime (\<open>create_loader\<close>, \<open>session.create\<close>,
  \<open>session.run\<close>) are taken to return; exceptions of their own are outside the model.

  Python's \<open>float\<close> and numpy's \<open>float64\<close> are modelled by exact rationals together with
  \<open>NaN\<close> (the mean of an empty array); rounding is not modelled. Scores are of any linearly
  ordered type. An exception of the script is a value of type \<open>error\<close>.
\<close>

subsection \<open>Exceptions and floats\<close>

datatype error =
    ZeroDivisionError
  | UnboundLocalError
  | IndexError
  | ValueError
  | OSError

datatype pyfloat = NaN | Fl rat

definition ebind :: "error + 'a \<Rightarrow> ('a \<Rightarrow> error + 'b) \<Rightarrow> error + 'b" where
  "ebind r f = (case r of Inl e \<Rightarrow> Inl e | Inr v \<Rightarrow> f v)"

fun fadd :: "pyfloat \<Rightarrow> pyfloat \<Rightarrow> pyfloat" where
  "fadd (Fl x) (Fl y) = Fl (x + y)"
| "fadd _ _ = NaN"

fun fsub :: "pyfloat \<Rightarrow> pyfloat \<Rightarrow> pyfloat" where
  "fsub (Fl x) (Fl y) = Fl (x - y)"
| "fsub _ _ = NaN"

fun fmul :: "pyfloat \<Rightarrow> pyfloat \<Rightarrow> pyfloat" where
  "fmul (Fl x) (Fl y) = Fl (x * y)"
| "fmul _ _ = NaN"

text \<open>Python's \<open>/\<close> raises on a zero divisor whatever the dividend is, \<open>nan\<close> included.\<close>

fun fdiv :: "pyfloat \<Rightarrow> pyfloat \<Rightarrow> error + pyfloat" where
  "fdiv a (Fl y) =
     (if y = 0 then Inl ZeroDivisionError
      else (case a of Fl x \<Rightarrow> Inr (Fl (x / y)) | NaN \<Rightarrow> Inr NaN))"
| "fdiv a NaN = Inr NaN"

definition of_pyint :: "int \<Rightarrow> pyfloat" where
  "of_pyint n = Fl (of_int n)"

subsection \<open>\<open>accuracy_np\<close>\<close>

text \<open>
  \<open>np.argsort(row)\<close> returns a permutation of the row's indices along which the scores
  ascend.
\<close>

definition is_argsort :: "'a::linorder list \<Rightarrow> nat list \<Rightarrow> bool" where
  "is_argsort row idx \<longleftrightarrow>
     distinct idx \<and> set idx = {..<length row} \<and> sorted (map (\<lambda>j. row ! j) idx)"

definition valid_argsort :: "('a::linorder list \<Rightarrow> nat list) \<Rightarrow> bool" where
  "valid_argsort asort \<longleftrightarrow> (\<forall>row. is_argsort row (asort row))"

text \<open>A stable argsort, which is what numpy's insertion sort does on a short row.\<close>

definition argsort_stable :: "'a::linorder list \<Rightarrow> nat list" where
  "argsort_stable row = map snd (sort_key fst (zip row [0..<length row]))"

text \<open>\<open>np.argsort(output, axis=1)[:, ::-1]\<close>: each row sorted, then reversed.\<close>

definition max_indices :: "('a list \<Rightarrow> nat list) \<Rightarrow> 'a list list \<Rightarrow> nat list list" where
  "max_indices asort output = map (\<lambda>row. rev (asort row)) output"

text \<open>
  \<open>np.equal(m, target[:, np.newaxis])\<close> for \<open>m\<close> of shape \<open>(N, k)\<close> and \<open>target\<close> of shape
  \<open>(M,)\<close>: the shapes \<open>(N, k)\<close> and \<open>(M, 1)\<close> broadcast when \<open>N = M\<close> or one of them is 1,
  and numpy raises \<open>ValueError\<close> otherwise.
\<close>

definition equal_rows :: "nat list list \<Rightarrow> int list \<Rightarrow> error + bool list list" where
  "equal_rows m target =
     (if length m = length target
        then Inr (map (\<lambda>(r, t). map (\<lambda>j. int j = t) r) (zip m target))
      else if length target = 1
        then Inr (map (\<lambda>r. map (\<lambda>j. int j = hd target) r) m)
      else if length m = 1
        then Inr (map (\<lambda>t. map (\<lambda>j. int j = t) (hd m)) target)
      else Inl ValueError)"

text \<open>\<open>np.equal(v, target)\<close> for \<open>v\<close> of shape \<open>(N,)\<close> and \<open>target\<close> of shape \<open>(M,)\<close>.\<close>

definition equal_vec :: "nat list \<Rightarrow> int list \<Rightarrow> error + bool list" where
  "equal_vec v target =
     (if length v = length target
        then Inr (map (\<lambda>(j, t). int j = t) (zip v target))
      else if length target = 1
        then Inr (map (\<lambda>j. int j = hd target) v)
      else if length v = 1
        then Inr (map (\<lambda>t. int (hd v) = t) target)
      else Inl ValueError)"

text \<open>\<open>.sum(axis=1)\<close> of a Boolean array counts the \<open>True\<close> entries of each row.\<close>

definition sum_axis1 :: "bool list list \<Rightarrow> nat list" where
  "sum_axis1 bs = map (\<lambda>r. length (filter (\<lambda>b. b) r)) bs"

text \<open>\<open>.mean()\<close>: the sum over the number of entries, \<open>nan\<close> for an empty array.\<close>

definition mean :: "nat list \<Rightarrow> pyfloat" where
  "mean xs = (if xs = [] then NaN else Fl (of_nat (sum_list xs) / of_nat (length xs)))"

definition of_bools :: "bool list \<Rightarrow> nat list" where
  "of_bools bs = map (\<lambda>b. if b then 1 else 0) bs"

text \<open>
  \<open>max_indices[:, 0]\<close> raises \<open>IndexError\<close> on an array with no column. An array is the
  list of its rows here, so the array with no row stands for one with at least one column.
\<close>

definition column0 :: "nat list list \<Rightarrow> error + nat list" where
  "column0 m = (if [] \<in> set m then Inl IndexError else Inr (map (\<lambda>r. r ! 0) m))"

definition accuracy_np ::
  "('a list \<Rightarrow> nat list) \<Rightarrow> 'a list list \<Rightarrow> int list \<Rightarrow> error + (pyfloat \<times> pyfloat)" where
  "accuracy_np asort output target =
     (let m = max_indices asort output in
      ebind (equal_rows (map (take 5) m) target) (\<lambda>eq5.
      let top5 = fmul (Fl 100) (mean (sum_axis1 eq5)) in
      ebind (column0 m) (\<lambda>c0.
      ebind (equal_vec c0 target) (\<lambda>eq1.
      let top1 = fmul (Fl 100) (mean (of_bools eq1)) in
      Inr (top1, top5)))))"

subsection \<open>\<open>AverageMeter\<close>\<close>

text \<open>
  Modelled from the spec: the class \<open>AverageMeter\<close> of the module \<open>utils\<close>, which the
  script imports and which is not among the sources. The spec's RunningAverage holds
  \<open>value\<close>, \<open>sum\<close>, \<open>count\<close> and \<open>average = sum/count\<close>, starts with \<open>count = 0\<close> and is
  updated by \<open>update(sample, weight)\<close>: \<open>sum += sample*weight; count += weight;
  value = sample\<close>. The script reads the fields \<open>val\<close> and \<open>avg\<close>, and calls \<open>update\<close> with
  and without a weight (the weight is 1 then). The fields \<open>sum\<close> and \<open>count\<close> are \<open>am_sum\<close>
  and \<open>am_count\<close> here.
\<close>

record AverageMeter =
  val :: pyfloat
  avg :: pyfloat
  am_sum :: pyfloat
  am_count :: int

text \<open>
  Modelled from the spec: the meter as \<open>AverageMeter()\<close> creates it, with \<open>count = 0\<close>. The
  fields the spec gives no starting value are taken to start at 0.
\<close>

definition AverageMeter_init :: AverageMeter where
  "AverageMeter_init = \<lparr>val = Fl 0, avg = Fl 0, am_sum = Fl 0, am_count = 0\<rparr>"

text \<open>
  Modelled from the spec: \<open>update(sample, weight)\<close>, with the average kept as
  \<open>sum / count\<close>; the division raises when the count is still 0.
\<close>

definition update :: "AverageMeter \<Rightarrow> pyfloat \<Rightarrow> int \<Rightarrow> error + AverageMeter" where
  "update m v n =
     (let s = fadd (am_sum m) (fmul v (of_pyint n));
          c = am_count m + n in
      ebind (fdiv s (of_pyint c)) (\<lambda>a.
      Inr \<lparr>val = v, avg = a, am_sum = s, am_count = c\<rparr>))"

subsection \<open>Arguments, the model artifact, batches\<close>

text \<open>
  Of the parsed arguments the script itself reads \<open>model_input\<close> and \<open>print_freq\<close>; the
  others go to the loader.
\<close>

record args =
  model_input :: string
  print_freq :: int

datatype graph = Bytes "8 word list" | Path string

text \<open>
  Lines 126 to 130: two \<open>if\<close>s in a row, no \<open>else\<close>. The variable \<open>graph\<close> is bound by
  neither when the path has neither extension (\<open>None\<close>). \<open>open\<close> raises \<open>OSError\<close> when the
  file cannot be read.
\<close>

definition select_graph :: "string \<Rightarrow> (string \<rightharpoonup> 8 word list) \<Rightarrow> error + graph option" where
  "select_graph path fs =
     ebind (if suffix ''.dfg'' path
            then (case fs path of None \<Rightarrow> Inl OSError | Some bytes \<Rightarrow> Inr (Some (Bytes bytes)))
            else Inr None) (\<lambda>g.
     Inr (if suffix ''.onnx'' path then Some (Path path) else g))"

text \<open>
  One batch of the loader, with what the outside world gives while it is processed:
  \<open>input.size(0)\<close>, the first output of \<open>session.run\<close>, the labels, the two readings of
  \<open>time.perf_counter_ns()\<close> around \<open>session.run\<close> (lines 138 and 140) and the two readings
  of \<open>time.time()\<close> (lines 149 and 150).
\<close>

record 'a batch =
  b_size :: nat
  b_output :: "'a list list"
  b_target :: "int list"
  b_perf_start :: int
  b_perf_stop :: int
  b_time_update :: rat
  b_time_end :: rat

subsection \<open>What is printed\<close>

text \<open>
  A printed line is the tuple of values its format string receives; the rounding of
  \<open>:.3f\<close> is not modelled.
\<close>

record progress =
  p_index :: nat
  p_total :: nat
  p_time_val :: pyfloat
  p_time_avg :: pyfloat
  p_rate_avg :: pyfloat
  p_ms_avg :: pyfloat
  p_top1_val :: pyfloat
  p_top1_avg :: pyfloat
  p_top5_val :: pyfloat
  p_top5_avg :: pyfloat

datatype line =
    Progress progress
  | Summary pyfloat pyfloat pyfloat pyfloat
  | AverageLatency rat

definition rate_avg :: "nat \<Rightarrow> pyfloat \<Rightarrow> error + pyfloat" where
  "rate_avg size0 bt_avg = fdiv (of_pyint (int size0)) bt_avg"

definition ms_avg :: "nat \<Rightarrow> pyfloat \<Rightarrow> error + pyfloat" where
  "ms_avg size0 bt_avg = fdiv (fmul (Fl 100) bt_avg) (of_pyint (int size0))"

subsection \<open>The loop\<close>

record state =
  batch_time :: AverageMeter
  top1 :: AverageMeter
  top5 :: AverageMeter
  end_time :: rat
  total_predictions :: int
  elapsed_time :: int
  stdout :: "line list"

definition init_state :: "rat \<Rightarrow> state" where
  "init_state t0 =
     \<lparr>batch_time = AverageMeter_init, top1 = AverageMeter_init, top5 = AverageMeter_init,
      end_time = t0, total_predictions = 0, elapsed_time = 0, stdout = []\<rparr>"

definition progress_line :: "nat \<Rightarrow> nat \<Rightarrow> nat \<Rightarrow> state \<Rightarrow> error + line" where
  "progress_line i len size0 st =
     ebind (rate_avg size0 (avg (batch_time st))) (\<lambda>rate.
     ebind (ms_avg size0 (avg (batch_time st))) (\<lambda>ms.
     Inr (Progress
       \<lparr>p_index = i, p_total = len,
        p_time_val = val (batch_time st), p_time_avg = avg (batch_time st),
        p_rate_avg = rate, p_ms_avg = ms,
        p_top1_val = val (top1 st), p_top1_avg = avg (top1 st),
        p_top5_val = val (top5 st), p_top5_avg = avg (top5 st)\<rparr>)))"

text \<open>
  Lines 138 to 166, one iteration. \<open>i % args.print_freq\<close> raises on \<open>print_freq = 0\<close>;
  for any other \<open>print_freq\<close> Python's \<open>%\<close> is \<open>mod\<close> on \<open>int\<close> (the result has the sign
  of the divisor).
\<close>

definition body ::
  "('a list \<Rightarrow> nat list) \<Rightarrow> args \<Rightarrow> nat \<Rightarrow> nat \<Rightarrow> 'a batch \<Rightarrow> state \<Rightarrow> error + state" where
  "body asort a len i b st =
     (let st1 = st\<lparr>elapsed_time := elapsed_time st + (b_perf_stop b - b_perf_start b)\<rparr> in
      ebind (accuracy_np asort (b_output b) (b_target b)) (\<lambda>(prec1, prec5).
      ebind (update (top1 st1) prec1 (int (b_size b))) (\<lambda>m1.
      ebind (update (top5 st1) prec5 (int (b_size b))) (\<lambda>m5.
      ebind (update (batch_time st1) (Fl (b_time_update b - end_time st1)) 1) (\<lambda>bt.
      let st2 = st1\<lparr>top1 := m1, top5 := m5, batch_time := bt, end_time := b_time_end b,
                     total_predictions := total_predictions st1 + 1\<rparr> in
      if print_freq a = 0 then Inl ZeroDivisionError
      else if int i mod print_freq a = 0
        then ebind (progress_line i len (b_size b) st2) (\<lambda>l.
             Inr (st2\<lparr>stdout := stdout st2 @ [l]\<rparr>))
      else Inr st2)))))"

text \<open>
  The \<open>for\<close> loop over \<open>enumerate(loader)\<close>. An exception ends the run; what was printed
  before it stays printed, and the \<open>print\<close> is the last statement of the body, so the lines
  printed up to the exception are those of the state the failing iteration started from.
\<close>

fun loop ::
  "('a list \<Rightarrow> nat list) \<Rightarrow> args \<Rightarrow> nat \<Rightarrow> nat \<Rightarrow> 'a batch list \<Rightarrow> state
     \<Rightarrow> (error \<times> line list) + state" where
  "loop asort a len i [] st = Inr st"
| "loop asort a len i (b # bs) st =
     (case body asort a len i b st of
        Inl e \<Rightarrow> Inl (e, stdout st)
      | Inr st' \<Rightarrow> loop asort a len (Suc i) bs st')"

subsection \<open>\<open>main\<close>\<close>

text \<open>
  The result of a run: the lines printed, the exception that ended it (if any), and the
  argument \<open>furiosa.runtime.session.create\<close> was called with (if it was called).
\<close>

record run =
  printed :: "line list"
  raised :: "error option"
  session_graph :: "graph option"

definition summary_line :: "state \<Rightarrow> line" where
  "summary_line st =
     Summary (avg (top1 st)) (fsub (Fl 100) (avg (top1 st)))
             (avg (top5 st)) (fsub (Fl 100) (avg (top5 st)))"

text \<open>Lines 173 and 174: \<open>elapsed_time / total_predictions\<close>, then \<open>latency / 1_000_000\<close>.\<close>

definition latency_line :: "state \<Rightarrow> error + line" where
  "latency_line st =
     (if total_predictions st = 0 then Inl ZeroDivisionError
      else Inr (AverageLatency
                 (of_int (elapsed_time st) / of_int (total_predictions st) / 1000000)))"

definition main ::
  "('a list \<Rightarrow> nat list) \<Rightarrow> args \<Rightarrow> (string \<rightharpoonup> 8 word list) \<Rightarrow> rat \<Rightarrow> 'a batch list \<Rightarrow> run" where
  "main asort a fs t0 loader =
     (case select_graph (model_input a) fs of
        Inl e \<Rightarrow> \<lparr>printed = [], raised = Some e, session_graph = None\<rparr>
      | Inr None \<Rightarrow> \<lparr>printed = [], raised = Some UnboundLocalError, session_graph = None\<rparr>
      | Inr (Some g) \<Rightarrow>
          (case loop asort a (length loader) 0 loader (init_state t0) of
             Inl (e, out) \<Rightarrow> \<lparr>printed = out, raised = Some e, session_graph = Some g\<rparr>
           | Inr st \<Rightarrow>
               (let out = stdout st @ [summary_line st] in
                case latency_line st of
                  Inl e \<Rightarrow> \<lparr>printed = out, raised = Some e, session_graph = Some g\<rparr>
                | Inr l \<Rightarrow> \<lparr>printed = out @ [l], raised = None, session_graph = Some g\<rparr>)))"

subsection \<open>Notions the properties are stated with\<close>

text \<open>
  What one row of \<open>max_indices\<close> adds to the two sums of \<open>accuracy_np\<close>: 1 when its first
  index is the label, and the number of entries among its first five that are the label.
\<close>

definition hit1 :: "nat list \<Rightarrow> int \<Rightarrow> nat" where
  "hit1 r t = (if int (r ! 0) = t then 1 else 0)"

definition hits5 :: "nat list \<Rightarrow> int \<Rightarrow> nat" where
  "hits5 r t = length (filter (\<lambda>j. int j = t) (take 5 r))"

text \<open>
  The label is the argmax of the row: it is an index of the row, and its score is above
  every other score of the row. (With two equal highest scores a row has no such label.)
\<close>

definition is_argmax :: "'a::linorder list \<Rightarrow> int \<Rightarrow> bool" where
  "is_argmax row t \<longleftrightarrow>
     0 \<le> t \<and> nat t < length row \<and> (\<forall>j < length row. j \<noteq> nat t \<longrightarrow> row ! j < row ! nat t)"

text \<open>A batch of all-correct predictions: at least one row, and every label is its row's argmax.\<close>

definition all_correct :: "'a::linorder list list \<Rightarrow> int list \<Rightarrow> bool" where
  "all_correct output target \<longleftrightarrow>
     output \<noteq> [] \<and> length target = length output \<and>
     (\<forall>(row, t) \<in> set (zip output target). is_argmax row t)"

text \<open>The indices of the progress lines among the lines printed, in the order printed.\<close>

fun progress_indices :: "line list \<Rightarrow> nat list" where
  "progress_indices [] = []"
| "progress_indices (Progress p # ls) = p_index p # progress_indices ls"
| "progress_indices (l # ls) = progress_indices ls"

text \<open>A meter that has only seen the value 100: its sum is 100 times its count.\<close>

definition all_100 :: "AverageMeter \<Rightarrow> bool" where
  "all_100 m \<longleftrightarrow> am_sum m = Fl (100 * of_int (am_count m))"

subsection \<open>Example runs\<close>

text \<open>
  Three batches of two samples with three classes, every prediction correct (the first is
  the spec's all-correct scenario); the inference calls take 4, 2 and 3 ms, and every
  iteration takes 2 s of wall-clock time after the clock started at 10.
\<close>

definition example_args :: args where
  "example_args = \<lparr>model_input = ''model.onnx'', print_freq = 2\<rparr>"

definition example_loader :: "rat batch list" where
  "example_loader =
     [\<lparr>b_size = 2, b_output = [[1/10, 9/10, 0], [8/10, 1/10, 1/10]], b_target = [1, 0],
       b_perf_start = 1000, b_perf_stop = 4001000, b_time_update = 12, b_time_end = 13\<rparr>,
      \<lparr>b_size = 2, b_output = [[2/10, 7/10, 1/10], [6/10, 3/10, 1/10]], b_target = [1, 0],
       b_perf_start = 5000000, b_perf_stop = 7000000, b_time_update = 15, b_time_end = 16\<rparr>,
      \<lparr>b_size = 2, b_output = [[0, 1/10, 9/10], [5/10, 3/10, 2/10]], b_target = [2, 0],
       b_perf_start = 8000000, b_perf_stop = 11000000, b_time_update = 18, b_time_end = 19\<rparr>]"

text \<open>One batch of four samples that takes 2 s.\<close>

definition four_sample_batch :: "rat batch" where
  "four_sample_batch =
     \<lparr>b_size = 4,
      b_output = [[1/10, 9/10, 0], [8/10, 1/10, 1/10], [3/10, 3/10, 4/10], [1/10, 2/10, 7/10]],
      b_target = [1, 0, 2, 2],
      b_perf_start = 1000, b_perf_stop = 4001000, b_time_update = 12, b_time_end = 13\<rparr>"

section \<open>Properties\<close>

subsection \<open>\<open>accuracy_np\<close>\<close>

lemma is_argsort_length: "is_argsort row idx \<Longrightarrow> length idx = length row"
  unfolding is_argsort_def using distinct_card[of idx] by auto

lemma argsort_stable_is_argsort: "is_argsort row (argsort_stable row)"
proof -
  let ?zs = "zip row [0..<length row]"
  let ?idx = "argsort_stable row"
  have len: "length ?idx = length row" by (simp add: argsort_stable_def)
  have "set ?idx = set (map snd ?zs)"
    unfolding argsort_stable_def by (simp only: set_map set_sort)
  also have "map snd ?zs = [0..<length row]" by simp
  finally have st: "set ?idx = {..<length row}" by (simp add: atLeast0LessThan)
  have "card (set ?idx) = length ?idx" using st len by simp
  then have d: "distinct ?idx" by (rule card_distinct)
  have "\<forall>p \<in> set ?zs. row ! snd p = fst p"
    by (auto simp: set_zip)
  then have "map (\<lambda>p. row ! snd p) (sort_key fst ?zs) = map fst (sort_key fst ?zs)"
    by simp
  then have "map (\<lambda>j. row ! j) ?idx = map fst (sort_key fst ?zs)"
    by (simp add: argsort_stable_def comp_def)
  then have "sorted (map (\<lambda>j. row ! j) ?idx)" by simp
  with d st show ?thesis by (simp add: is_argsort_def)
qed

lemma argsort_stable_valid: "valid_argsort argsort_stable"
  by (simp add: valid_argsort_def argsort_stable_is_argsort)

lemma is_argsort_last_max:
  assumes "is_argsort row idx" "j < length row"
  shows "row ! j \<le> row ! (last idx)"
proof -
  from assms have "j \<in> set idx" by (simp add: is_argsort_def)
  then obtain k where k: "k < length idx" "idx ! k = j" by (auto simp: in_set_conv_nth)
  then have ne: "idx \<noteq> []" by auto
  have s: "sorted (map (\<lambda>j. row ! j) idx)" using assms by (simp add: is_argsort_def)
  have "map (\<lambda>j. row ! j) idx ! k \<le> map (\<lambda>j. row ! j) idx ! (length idx - 1)"
    using s k by (intro sorted_nth_mono) auto
  then show ?thesis using k ne by (simp add: last_conv_nth)
qed

lemma is_argsort_top_unique:
  assumes a: "is_argsort row idx" and m: "m < length row"
    and u: "\<forall>j < length row. j \<noteq> m \<longrightarrow> row ! j < row ! m"
  shows "rev idx ! 0 = m"
proof -
  have len: "length idx = length row" using a by (rule is_argsort_length)
  then have ne: "idx \<noteq> []" using m by auto
  then have "last idx \<in> set idx" by simp
  then have l: "last idx < length row" using a by (simp add: is_argsort_def)
  have "row ! m \<le> row ! last idx" using a m by (rule is_argsort_last_max)
  with u l have "last idx = m" by (meson not_le)
  then show ?thesis using ne by (simp add: rev_nth last_conv_nth)
qed

lemma hit1_le_hits5: "r \<noteq> [] \<Longrightarrow> hit1 r t \<le> hits5 r t"
proof (cases "int (r ! 0) = t")
  case True
  assume "r \<noteq> []"
  then have "r ! 0 \<in> set (take 5 r)" by (cases r) auto
  with True have "filter (\<lambda>j. int j = t) (take 5 r) \<noteq> []"
    by (auto simp: filter_empty_conv)
  then show ?thesis by (cases "filter (\<lambda>j. int j = t) (take 5 r)") (auto simp: hit1_def hits5_def)
next
  case False
  then show ?thesis by (simp add: hit1_def)
qed

lemma hits5_distinct_le1: "distinct r \<Longrightarrow> hits5 r t \<le> 1"
proof -
  assume "distinct r"
  then have "distinct (take 5 r)" by simp
  then have "distinct (filter (\<lambda>j. int j = t) (take 5 r))" by simp
  moreover have "set (filter (\<lambda>j. int j = t) (take 5 r)) \<subseteq> {nat t}" by auto
  ultimately have "length (filter (\<lambda>j. int j = t) (take 5 r)) \<le> card {nat t}"
    by (metis card_mono distinct_card finite.emptyI finite.insertI)
  then show ?thesis by (simp add: hits5_def)
qed

lemma hits5_hit: "distinct r \<Longrightarrow> r \<noteq> [] \<Longrightarrow> int (r ! 0) = t \<Longrightarrow> hits5 r t = 1"
  using hit1_le_hits5[of r t] hits5_distinct_le1[of r t] by (simp add: hit1_def)

lemma hits5_all_classes:
  assumes a: "is_argsort row idx" and c: "length row \<le> 5" and t: "0 \<le> t" "nat t < length row"
  shows "hits5 (rev idx) t = 1"
proof -
  have len: "length idx = length row" using a by (rule is_argsort_length)
  have d: "distinct (rev idx)" using a by (simp add: is_argsort_def)
  have "nat t \<in> set (rev idx)" using a t by (simp add: is_argsort_def)
  then have "filter (\<lambda>j. int j = t) (take 5 (rev idx)) \<noteq> []"
    using c len t by (auto simp: filter_empty_conv intro!: bexI[of _ "nat t"])
  then have "1 \<le> hits5 (rev idx) t"
    by (cases "filter (\<lambda>j. int j = t) (take 5 (rev idx))") (auto simp: hits5_def)
  with hits5_distinct_le1[OF d, of t] show ?thesis by simp
qed

lemma accuracy_np_formula:
  assumes len: "length target = length output" and ne: "output \<noteq> []"
    and rows: "[] \<notin> set (max_indices asort output)"
  shows "accuracy_np asort output target =
    Inr (Fl (100 * (of_nat (\<Sum>(r, t) \<leftarrow> zip (max_indices asort output) target. hit1 r t) / of_nat (length output))),
         Fl (100 * (of_nat (\<Sum>(r, t) \<leftarrow> zip (max_indices asort output) target. hits5 r t) / of_nat (length output))))"
proof -
  let ?m = "max_indices asort output"
  have lm: "length ?m = length target" using len by (simp add: max_indices_def)
  have e5: "equal_rows (map (take 5) ?m) target =
      Inr (map (\<lambda>(r, t). map (\<lambda>j. int j = t) r) (zip (map (take 5) ?m) target))"
    using lm by (simp add: equal_rows_def)
  have s5: "sum_axis1 (map (\<lambda>(r, t). map (\<lambda>j. int j = t) r) (zip (map (take 5) ?m) target))
      = map (\<lambda>(r, t). hits5 r t) (zip ?m target)"
    by (simp add: sum_axis1_def hits5_def zip_map1 comp_def case_prod_unfold filter_map)
  have c0: "column0 ?m = Inr (map (\<lambda>r. r ! 0) ?m)" using rows by (simp add: column0_def)
  have e1: "equal_vec (map (\<lambda>r. r ! 0) ?m) target =
      Inr (map (\<lambda>(j, t). int j = t) (zip (map (\<lambda>r. r ! 0) ?m) target))"
    using lm by (simp add: equal_vec_def)
  have s1: "of_bools (map (\<lambda>(j, t). int j = t) (zip (map (\<lambda>r. r ! 0) ?m) target))
      = map (\<lambda>(r, t). hit1 r t) (zip ?m target)"
    by (simp add: of_bools_def hit1_def zip_map1 comp_def case_prod_unfold)
  have z: "zip ?m target \<noteq> []" using lm ne len by (cases ?m; cases target) auto
  have lz: "length (zip ?m target) = length output" using lm len by simp
  show ?thesis
    unfolding accuracy_np_def Let_def e5 ebind_def sum.case s5 c0 e1 s1
    using z lz by (simp add: mean_def)
qed

lemma valid_rows_nonempty:
  assumes v: "valid_argsort asort" and r: "[] \<notin> set output"
  shows "[] \<notin> set (max_indices asort output)"
proof
  assume "[] \<in> set (max_indices asort output)"
  then obtain row where row: "row \<in> set output" "asort row = []"
    by (auto simp: max_indices_def)
  from v have "length (asort row) = length row"
    by (simp add: valid_argsort_def is_argsort_length)
  with row r show False by auto
qed

lemma zip_max_indices:
  "zip (max_indices asort output) target = map (\<lambda>(row, t). (rev (asort row), t)) (zip output target)"
  by (simp add: max_indices_def zip_map1 case_prod_unfold)

lemma sum_hits_const:
  assumes "\<forall>(row, t) \<in> set (zip output target). f (rev (asort row)) t = (c::nat)"
  shows "(\<Sum>(r, t) \<leftarrow> zip (max_indices asort output) target. f r t) = c * length (zip output target)"
proof -
  have "map (\<lambda>(r, t). f r t) (zip (max_indices asort output) target)
      = map (\<lambda>p. c) (zip output target)"
    using assms by (auto simp: zip_max_indices)
  then show ?thesis by (simp add: sum_list_triv)
qed

text \<open>
  Claim C10. For an output array with at least one row and at least one class in every
  row, and a target vector of the same length, \<open>accuracy_np\<close> returns two numbers, and
  top1 is at most top5: the highest-scoring class is among the five highest-scoring ones.
\<close>

theorem accuracy_np_top1_le_top5:
  assumes v: "valid_argsort asort"
    and ne: "output \<noteq> []" and cls: "\<forall>row \<in> set output. row \<noteq> []"
    and len: "length target = length output"
  shows "\<exists>t1 t5. accuracy_np asort output target = Inr (Fl t1, Fl t5) \<and> t1 \<le> t5"
proof -
  let ?zs = "zip (max_indices asort output) target"
  have rows: "[] \<notin> set (max_indices asort output)"
    using v cls by (intro valid_rows_nonempty) auto
  have "\<And>p. p \<in> set ?zs \<Longrightarrow> (case p of (r, t) \<Rightarrow> hit1 r t) \<le> (case p of (r, t) \<Rightarrow> hits5 r t)"
  proof -
    fix p assume "p \<in> set ?zs"
    then have "fst p \<in> set (max_indices asort output)"
      by (metis set_zip_leftD prod.collapse)
    with rows have "fst p \<noteq> []" by auto
    then show "(case p of (r, t) \<Rightarrow> hit1 r t) \<le> (case p of (r, t) \<Rightarrow> hits5 r t)"
      by (cases p) (simp add: hit1_le_hits5)
  qed
  then have "(\<Sum>(r, t) \<leftarrow> ?zs. hit1 r t) \<le> (\<Sum>(r, t) \<leftarrow> ?zs. hits5 r t)"
    by (rule sum_list_mono)
  then have "100 * ((of_nat (\<Sum>(r, t) \<leftarrow> ?zs. hit1 r t) :: rat) / of_nat (length output))
      \<le> 100 * (of_nat (\<Sum>(r, t) \<leftarrow> ?zs. hits5 r t) / of_nat (length output))"
    by (intro mult_left_mono divide_right_mono) simp_all
  then show ?thesis
    using accuracy_np_formula[OF len ne rows] by blast
qed

text \<open>
  Six classes, the label is the second-highest score: top1 is 0 and top5 is 100.
\<close>

theorem accuracy_np_top1_le_top5_witness:
  "(\<exists>t1 t5. accuracy_np argsort_stable [[1, 2, 3, 4, 5, 6 :: rat]] [4] = Inr (Fl t1, Fl t5)
      \<and> t1 \<le> t5)
   \<and> accuracy_np argsort_stable [[1, 2, 3, 4, 5, 6 :: rat]] [4] = Inr (Fl 0, Fl 100)"
proof
  show "\<exists>t1 t5. accuracy_np argsort_stable [[1, 2, 3, 4, 5, 6 :: rat]] [4] = Inr (Fl t1, Fl t5)
      \<and> t1 \<le> t5"
    using accuracy_np_top1_le_top5[OF argsort_stable_valid, of "[[1, 2, 3, 4, 5, 6 :: rat]]" "[4]"]
    by simp
  show "accuracy_np argsort_stable [[1, 2, 3, 4, 5, 6 :: rat]] [4] = Inr (Fl 0, Fl 100)"
    by code_simp
qed

text \<open>
  With two equal highest scores the index that \<open>max_indices\<close> puts first depends on the
  argsort; the stable one puts the last of them first.
\<close>

lemma tied_scores_stable:
  "accuracy_np argsort_stable [[1/2, 1/2 :: rat]] [0] = Inr (Fl 0, Fl 100)"
  "accuracy_np argsort_stable [[1/2, 1/2 :: rat]] [1] = Inr (Fl 100, Fl 100)"
  by code_simp+

lemma is_argmax_hit1:
  assumes "is_argsort row idx" "is_argmax row t"
  shows "rev idx ! 0 = nat t"
  using assms is_argsort_top_unique[of row idx "nat t"] by (simp add: is_argmax_def)

lemma accuracy_np_all_correct:
  assumes v: "valid_argsort asort" and ac: "all_correct output target"
  shows "accuracy_np asort output target = Inr (Fl 100, Fl 100)"
proof -
  have ne: "output \<noteq> []" and len: "length target = length output"
    and am: "\<forall>(row, t) \<in> set (zip output target). is_argmax row t"
    using ac by (simp_all add: all_correct_def)
  have nonempty: "[] \<notin> set output"
  proof
    assume "[] \<in> set output"
    then obtain k where k: "k < length output" "output ! k = []" by (auto simp: in_set_conv_nth)
    then have "(output ! k, target ! k) \<in> set (zip output target)"
      using len by (auto simp: set_zip intro!: exI[of _ k])
    with am have "is_argmax (output ! k) (target ! k)" by auto
    with k show False by (simp add: is_argmax_def)
  qed
  have rows: "[] \<notin> set (max_indices asort output)"
    using v nonempty by (rule valid_rows_nonempty)
  have top: "\<forall>(row, t) \<in> set (zip output target). rev (asort row) ! 0 = nat t \<and> 0 \<le> t \<and> rev (asort row) \<noteq> [] \<and> distinct (rev (asort row))"
  proof (clarify)
    fix row t assume "(row, t) \<in> set (zip output target)"
    with am have a: "is_argmax row t" by auto
    have s: "is_argsort row (asort row)" using v by (simp add: valid_argsort_def)
    have "length (asort row) = length row" using s by (rule is_argsort_length)
    with a have "rev (asort row) \<noteq> []" by (auto simp: is_argmax_def)
    moreover have "distinct (rev (asort row))" using s by (simp add: is_argsort_def)
    ultimately show "rev (asort row) ! 0 = nat t \<and> 0 \<le> t \<and> rev (asort row) \<noteq> [] \<and> distinct (rev (asort row))"
      using is_argmax_hit1[OF s a] a by (simp add: is_argmax_def)
  qed
  have h1: "\<forall>(row, t) \<in> set (zip output target). hit1 (rev (asort row)) t = 1"
    using top by (auto simp: hit1_def)
  have h5: "\<forall>(row, t) \<in> set (zip output target). hits5 (rev (asort row)) t = 1"
  proof (clarify)
    fix row t assume "(row, t) \<in> set (zip output target)"
    with top have "rev (asort row) ! 0 = nat t" "0 \<le> t" "rev (asort row) \<noteq> []"
      "distinct (rev (asort row))" by auto
    then show "hits5 (rev (asort row)) t = 1" by (intro hits5_hit) simp_all
  qed
  have n: "length (zip output target) = length output" using len by simp
  have pos: "(of_nat (length output) :: rat) \<noteq> 0" using ne by simp
  show ?thesis
    unfolding accuracy_np_formula[OF len ne rows] sum_hits_const[OF h1] sum_hits_const[OF h5] n
    using pos by simp
qed

text \<open>
  Claim C4. For output \<open>[[0.9, 0.1, 0.0], [0.8, 0.1, 0.1]]\<close> and target \<open>[1, 0]\<close>,
  \<open>accuracy_np\<close> returns top1 = 50.0 (sample 0 wrong, sample 1 right) and top5 = 100.0,
  whatever order the argsort gives the two equal scores of the second row.
\<close>

theorem accuracy_np_scenario_half:
  assumes v: "valid_argsort asort"
  shows "accuracy_np asort [[9/10, 1/10, 0], [8/10, 1/10, 1/10 :: rat]] [1, 0] = Inr (Fl 50, Fl 100)"
proof -
  let ?r0 = "[9/10, 1/10, 0 :: rat]" and ?r1 = "[8/10, 1/10, 1/10 :: rat]"
  let ?out = "[?r0, ?r1]"
  have s0: "is_argsort ?r0 (asort ?r0)" and s1: "is_argsort ?r1 (asort ?r1)"
    using v by (simp_all add: valid_argsort_def)
  have u0: "\<forall>j < length ?r0. j \<noteq> 0 \<longrightarrow> ?r0 ! j < ?r0 ! 0"
    by (simp add: less_Suc_eq nth_Cons')
  have u1: "\<forall>j < length ?r1. j \<noteq> 0 \<longrightarrow> ?r1 ! j < ?r1 ! 0"
    by (simp add: less_Suc_eq nth_Cons')
  have t0: "rev (asort ?r0) ! 0 = 0" using s0 _ u0 by (rule is_argsort_top_unique) simp
  have t1: "rev (asort ?r1) ! 0 = 0" using s1 _ u1 by (rule is_argsort_top_unique) simp
  have f0: "hits5 (rev (asort ?r0)) 1 = 1" using s0 by (rule hits5_all_classes) simp_all
  have f1: "hits5 (rev (asort ?r1)) 0 = 1" using s1 by (rule hits5_all_classes) simp_all
  have rows: "[] \<notin> set (max_indices asort ?out)"
    using v by (rule valid_rows_nonempty) simp
  have "accuracy_np asort ?out [1, 0] =
      Inr (Fl (100 * (of_nat (hit1 (rev (asort ?r0)) 1 + hit1 (rev (asort ?r1)) 0) / 2)),
           Fl (100 * (of_nat (hits5 (rev (asort ?r0)) 1 + hits5 (rev (asort ?r1)) 0) / 2)))"
    using accuracy_np_formula[of "[1, 0]" ?out asort, OF _ _ rows]
    by (simp add: max_indices_def)
  with t0 t1 f0 f1 show ?thesis by (simp add: hit1_def)
qed

theorem accuracy_np_scenario_half_witness:
  "accuracy_np argsort_stable [[9/10, 1/10, 0], [8/10, 1/10, 1/10 :: rat]] [1, 0] = Inr (Fl 50, Fl 100)"
  using accuracy_np_scenario_half[OF argsort_stable_valid] .

subsection \<open>The loop\<close>

lemma ebind_Inr: "ebind r f = Inr y \<longleftrightarrow> (\<exists>v. r = Inr v \<and> f v = Inr y)"
  by (cases r) (simp_all add: ebind_def)

lemma progress_line_Inr:
  "progress_line i len n st = Inr l \<Longrightarrow> \<exists>p. l = Progress p \<and> p_index p = i \<and> p_total p = len"
  by (auto simp: progress_line_def ebind_Inr)

lemma body_Inr:
  assumes "body asort a len i b st = Inr st'"
  shows "\<exists>prec1 prec5.
      accuracy_np asort (b_output b) (b_target b) = Inr (prec1, prec5)
      \<and> update (top1 st) prec1 (int (b_size b)) = Inr (top1 st')
      \<and> update (top5 st) prec5 (int (b_size b)) = Inr (top5 st')"
    and "update (batch_time st) (Fl (b_time_update b - end_time st)) 1 = Inr (batch_time st')"
    and "print_freq a \<noteq> 0"
    and "end_time st' = b_time_end b"
    and "total_predictions st' = total_predictions st + 1"
    and "elapsed_time st' = elapsed_time st + (b_perf_stop b - b_perf_start b)"
    and "int i mod print_freq a \<noteq> 0 \<Longrightarrow> stdout st' = stdout st"
    and "int i mod print_freq a = 0 \<Longrightarrow> \<exists>p. stdout st' = stdout st @ [Progress p] \<and> p_index p = i"
  using assms
  by (auto simp: body_def Let_def ebind_Inr split: if_splits dest!: progress_line_Inr)

lemma progress_indices_append:
  "progress_indices (xs @ ys) = progress_indices xs @ progress_indices ys"
  by (induction xs rule: progress_indices.induct) simp_all

lemma body_stdout:
  assumes "body asort a len i b st = Inr st'"
  shows "progress_indices (stdout st')
      = progress_indices (stdout st) @ filter (\<lambda>j. print_freq a dvd int j) [i]"
    and "length (stdout st') = length (stdout st) + length (filter (\<lambda>j. print_freq a dvd int j) [i])"
proof -
  show "progress_indices (stdout st')
      = progress_indices (stdout st) @ filter (\<lambda>j. print_freq a dvd int j) [i]"
  proof (cases "int i mod print_freq a = 0")
    case True
    with body_Inr(8)[OF assms] obtain p where "stdout st' = stdout st @ [Progress p]" "p_index p = i"
      by blast
    with True show ?thesis by (simp add: progress_indices_append dvd_eq_mod_eq_0)
  next
    case False
    with body_Inr(7)[OF assms] show ?thesis by (simp add: dvd_eq_mod_eq_0)
  qed
  show "length (stdout st') = length (stdout st) + length (filter (\<lambda>j. print_freq a dvd int j) [i])"
  proof (cases "int i mod print_freq a = 0")
    case True
    with body_Inr(8)[OF assms] obtain p where "stdout st' = stdout st @ [Progress p]"
      by blast
    with True show ?thesis by (simp add: dvd_eq_mod_eq_0)
  next
    case False
    with body_Inr(7)[OF assms] show ?thesis by (simp add: dvd_eq_mod_eq_0)
  qed
qed

lemma upt_from_Suc: "[i..<i + Suc n] = [i] @ [Suc i..<Suc i + n]"
  by (subst upt_rec) simp

lemma loop_total_predictions:
  "loop asort a len i bs st = Inr st' \<Longrightarrow>
     total_predictions st' = total_predictions st + int (length bs)"
proof (induction bs arbitrary: i st)
  case Nil
  then show ?case by simp
next
  case (Cons b bs)
  then obtain st1 where b: "body asort a len i b st = Inr st1"
    and l: "loop asort a len (Suc i) bs st1 = Inr st'"
    by (auto split: sum.splits)
  from Cons.IH[OF l] body_Inr(5)[OF b] show ?case by simp
qed

lemma loop_elapsed_time:
  "loop asort a len i bs st = Inr st' \<Longrightarrow>
     elapsed_time st' = elapsed_time st + (\<Sum>b \<leftarrow> bs. b_perf_stop b - b_perf_start b)"
proof (induction bs arbitrary: i st)
  case Nil
  then show ?case by simp
next
  case (Cons b bs)
  then obtain st1 where b: "body asort a len i b st = Inr st1"
    and l: "loop asort a len (Suc i) bs st1 = Inr st'"
    by (auto split: sum.splits)
  from Cons.IH[OF l] body_Inr(6)[OF b] show ?case by simp
qed

lemma loop_stdout:
  "loop asort a len i bs st = Inr st' \<Longrightarrow>
     progress_indices (stdout st')
       = progress_indices (stdout st) @ filter (\<lambda>j. print_freq a dvd int j) [i..<i + length bs]
     \<and> length (stdout st')
       = length (stdout st) + length (filter (\<lambda>j. print_freq a dvd int j) [i..<i + length bs])"
proof (induction bs arbitrary: i st)
  case Nil
  then show ?case by simp
next
  case (Cons b bs)
  then obtain st1 where b: "body asort a len i b st = Inr st1"
    and l: "loop asort a len (Suc i) bs st1 = Inr st'"
    by (auto split: sum.splits)
  have u: "[i..<i + length (b # bs)] = [i] @ [Suc i..<Suc i + length bs]"
    using upt_from_Suc[of i "length bs"] by simp
  from Cons.IH[OF l] body_stdout[OF b] show ?case
    unfolding u filter_append by simp
qed

lemma loop_stdout_raised:
  "loop asort a len i bs st = Inl (e, out) \<Longrightarrow>
     \<exists>k < length bs.
       progress_indices out
         = progress_indices (stdout st) @ filter (\<lambda>j. print_freq a dvd int j) [i..<i + k]"
proof (induction bs arbitrary: i st)
  case Nil
  then show ?case by simp
next
  case (Cons b bs)
  show ?case
  proof (cases "body asort a len i b st")
    case (Inl e')
    with Cons.prems have "out = stdout st" by simp
    then show ?thesis by (intro exI[of _ 0]) simp
  next
    case (Inr st1)
    with Cons.prems have l: "loop asort a len (Suc i) bs st1 = Inl (e, out)" by simp
    from Cons.IH[OF l] obtain k where k: "k < length bs"
      "progress_indices out
         = progress_indices (stdout st1) @ filter (\<lambda>j. print_freq a dvd int j) [Suc i..<Suc i + k]"
      by blast
    have u: "[i..<i + Suc k] = [i] @ [Suc i..<Suc i + k]"
      by (rule upt_from_Suc)
    show ?thesis
      using k body_stdout(1)[OF Inr]
      by (intro exI[of _ "Suc k"]) (simp only: u filter_append, simp)
  qed
qed

lemma example_loop_finishes:
  "\<exists>st. loop argsort_stable example_args (length example_loader) 0 example_loader (init_state 10) = Inr st"
proof -
  have "case loop argsort_stable example_args (length example_loader) 0 example_loader (init_state 10) of
      Inl x \<Rightarrow> False | Inr st \<Rightarrow> True"
    by code_simp
  then show ?thesis
    by (cases "loop argsort_stable example_args (length example_loader) 0 example_loader (init_state 10)") auto
qed

lemma update_all_100:
  assumes q: "all_100 m" and u: "update m (Fl 100) n = Inr m'"
  shows "all_100 m' \<and> avg m' = Fl 100"
proof -
  from q obtain c where s: "am_sum m = Fl (100 * of_int c)" and c: "c = am_count m"
    by (simp add: all_100_def)
  have nz: "am_count m + n \<noteq> 0"
    using u by (auto simp: update_def Let_def ebind_Inr of_pyint_def s split: if_splits)
  then have nz': "(of_int (am_count m) + of_int n :: rat) \<noteq> 0"
    by (metis of_int_add of_int_eq_0_iff)
  have m': "m' = \<lparr>val = Fl 100, avg = Fl ((100 * of_int c + 100 * of_int n) / of_int (c + n)),
       am_sum = Fl (100 * of_int c + 100 * of_int n), am_count = c + n\<rparr>"
    using u nz by (auto simp: update_def Let_def ebind_Inr of_pyint_def s c split: if_splits)
  have "(100 * of_int c + 100 * of_int n) / (of_int (c + n) :: rat) = 100"
    using nz' c by (simp add: field_simps)
  with m' show ?thesis by (simp add: all_100_def algebra_simps)
qed

lemma loop_all_100:
  assumes v: "valid_argsort asort"
  shows "\<forall>b \<in> set bs. all_correct (b_output b) (b_target b) \<Longrightarrow>
     all_100 (top1 st) \<Longrightarrow> all_100 (top5 st) \<Longrightarrow> bs \<noteq> [] \<Longrightarrow>
     loop asort a len i bs st = Inr st' \<Longrightarrow>
     all_100 (top1 st') \<and> all_100 (top5 st') \<and> avg (top1 st') = Fl 100 \<and> avg (top5 st') = Fl 100"
proof (induction bs arbitrary: i st)
  case Nil
  then show ?case by simp
next
  case (Cons b bs)
  from Cons.prems(5) obtain st1 where b: "body asort a len i b st = Inr st1"
    and l: "loop asort a len (Suc i) bs st1 = Inr st'"
    by (auto split: sum.splits)
  have "accuracy_np asort (b_output b) (b_target b) = Inr (Fl 100, Fl 100)"
    using v Cons.prems(1) by (intro accuracy_np_all_correct) simp_all
  with body_Inr(1)[OF b] have u1: "update (top1 st) (Fl 100) (int (b_size b)) = Inr (top1 st1)"
    and u5: "update (top5 st) (Fl 100) (int (b_size b)) = Inr (top5 st1)"
    by auto
  note s1 = update_all_100[OF Cons.prems(2) u1] update_all_100[OF Cons.prems(3) u5]
  show ?case
  proof (cases "bs = []")
    case True
    with l have "st' = st1" by simp
    with s1 show ?thesis by simp
  next
    case False
    show ?thesis using Cons.IH[OF _ _ _ False l] Cons.prems(1) s1 by simp
  qed
qed

subsection \<open>The claims about the loop\<close>

text \<open>
  Claim C5. When in every batch every label is the argmax of its row of the output,
  \<open>accuracy_np\<close> returns top1 = top5 = 100 for every batch, and after the loop over the
  batches the running averages of top1 and top5 are 100 as well. A batch has at least one
  row and the loader at least one batch here: the mean over no row is \<open>nan\<close>, and the
  meters of a run without batches stay at 0.
\<close>

theorem all_correct_gives_100:
  assumes v: "valid_argsort asort"
    and ac: "\<forall>b \<in> set loader. all_correct (b_output b) (b_target b)"
  shows "(\<forall>b \<in> set loader. accuracy_np asort (b_output b) (b_target b) = Inr (Fl 100, Fl 100))
    \<and> (\<forall>st. loader \<noteq> [] \<longrightarrow> loop asort a (length loader) 0 loader (init_state t0) = Inr st \<longrightarrow>
          avg (top1 st) = Fl 100 \<and> avg (top5 st) = Fl 100)"
proof (intro conjI ballI allI impI)
  fix b assume "b \<in> set loader"
  with ac have "all_correct (b_output b) (b_target b)" by simp
  with v show "accuracy_np asort (b_output b) (b_target b) = Inr (Fl 100, Fl 100)"
    by (rule accuracy_np_all_correct)
next
  fix st assume ne: "loader \<noteq> []"
    and fin: "loop asort a (length loader) 0 loader (init_state t0) = Inr st"
  have i1: "all_100 (top1 (init_state t0))" and i5: "all_100 (top5 (init_state t0))"
    by (simp_all add: init_state_def AverageMeter_init_def all_100_def)
  from loop_all_100[OF v ac i1 i5 ne fin]
  show "avg (top1 st) = Fl 100" and "avg (top5 st) = Fl 100" by simp_all
qed

lemma example_loader_all_correct:
  "\<forall>b \<in> set example_loader. all_correct (b_output b) (b_target b)"
  by (simp add: example_loader_def all_correct_def is_argmax_def less_Suc_eq nth_Cons')

text \<open>The three all-correct batches of the example run.\<close>

theorem all_correct_gives_100_witness:
  "map (\<lambda>b. accuracy_np argsort_stable (b_output b) (b_target b)) example_loader
     = [Inr (Fl 100, Fl 100), Inr (Fl 100, Fl 100), Inr (Fl 100, Fl 100)]
   \<and> (\<exists>st. loop argsort_stable example_args (length example_loader) 0 example_loader (init_state 10) = Inr st
        \<and> avg (top1 st) = Fl 100 \<and> avg (top5 st) = Fl 100)"
proof -
  from example_loop_finishes obtain st where
    eq: "loop argsort_stable example_args (length example_loader) 0 example_loader (init_state 10) = Inr st"
    by blast
  have ne: "example_loader \<noteq> []" by (simp add: example_loader_def)
  note inst = all_correct_gives_100[OF argsort_stable_valid example_loader_all_correct, of example_args 10]
  from inst have "\<forall>b \<in> set example_loader.
      accuracy_np argsort_stable (b_output b) (b_target b) = Inr (Fl 100, Fl 100)"
    by blast
  then have "map (\<lambda>b. accuracy_np argsort_stable (b_output b) (b_target b)) example_loader
      = map (\<lambda>b. Inr (Fl 100, Fl 100)) example_loader"
    by simp
  also have "\<dots> = [Inr (Fl 100, Fl 100), Inr (Fl 100, Fl 100), Inr (Fl 100, Fl 100)]"
    by (simp add: example_loader_def)
  finally have m: "map (\<lambda>b. accuracy_np argsort_stable (b_output b) (b_target b)) example_loader
      = [Inr (Fl 100, Fl 100), Inr (Fl 100, Fl 100), Inr (Fl 100, Fl 100)]" .
  from inst eq ne have "avg (top1 st) = Fl 100 \<and> avg (top5 st) = Fl 100" by blast
  with m eq show ?thesis by blast
qed

text \<open>
  Claim C6. When the loop has run over every batch of the loader, \<open>total_predictions\<close> is
  the number of batches: it is incremented once per batch, whatever the number of samples
  in the batches.
\<close>

theorem total_predictions_counts_batches:
  assumes "loop asort a (length loader) 0 loader (init_state t0) = Inr st"
  shows "total_predictions st = int (length loader)"
  using loop_total_predictions[OF assms] by (simp add: init_state_def)

text \<open>Three batches of two samples each: 3 is counted, not 6.\<close>

theorem total_predictions_counts_batches_witness:
  "\<exists>st. loop argsort_stable example_args (length example_loader) 0 example_loader (init_state 10) = Inr st
     \<and> total_predictions st = 3 \<and> (\<Sum>b \<leftarrow> example_loader. b_size b) = 6"
proof -
  from example_loop_finishes obtain st where
    eq: "loop argsort_stable example_args (length example_loader) 0 example_loader (init_state 10) = Inr st"
    by blast
  have "(\<Sum>b \<leftarrow> example_loader. b_size b) = 6" by code_simp
  moreover have "int (length example_loader) = 3" by code_simp
  ultimately show ?thesis using total_predictions_counts_batches[OF eq] eq by simp
qed

text \<open>
  Claim C7. For a non-empty loader whose loop finishes, the run ends without an exception
  and the last line printed is the average latency
  \<open>elapsed_time / total_predictions / 1e6\<close> (in ms), where \<open>elapsed_time\<close> is the sum over
  the batches of the \<open>perf_counter_ns\<close> difference taken around \<open>session.run\<close> alone and
  \<open>total_predictions\<close> is the number of batches. The readings of \<open>time.time()\<close>, which
  span the data loading, do not enter it.
\<close>

theorem final_latency_formula:
  assumes g: "select_graph (model_input a) fs = Inr (Some g)"
    and ne: "loader \<noteq> []"
    and fin: "loop asort a (length loader) 0 loader (init_state t0) = Inr st"
  shows "main asort a fs t0 loader =
      \<lparr>printed = stdout st @ [summary_line st,
          AverageLatency (of_int (elapsed_time st) / of_int (total_predictions st) / 1000000)],
       raised = None, session_graph = Some g\<rparr>
    \<and> elapsed_time st = (\<Sum>b \<leftarrow> loader. b_perf_stop b - b_perf_start b)
    \<and> total_predictions st = int (length loader)"
proof -
  have t: "total_predictions st = int (length loader)"
    using loop_total_predictions[OF fin] by (simp add: init_state_def)
  with ne have "total_predictions st \<noteq> 0" by simp
  then have l: "latency_line st = Inr (AverageLatency
      (of_int (elapsed_time st) / of_int (total_predictions st) / 1000000))"
    by (simp add: latency_line_def)
  have e: "elapsed_time st = (\<Sum>b \<leftarrow> loader. b_perf_stop b - b_perf_start b)"
    using loop_elapsed_time[OF fin] by (simp add: init_state_def)
  show ?thesis using g fin l e t by (simp add: main_def)
qed

text \<open>Inference calls of 4, 2 and 3 ms: 9000000 ns over 3 batches, printed as 3 ms.\<close>

theorem final_latency_formula_witness:
  "printed (main argsort_stable example_args Map.empty 10 example_loader) ! 3 = AverageLatency 3
   \<and> (\<Sum>b \<leftarrow> example_loader. b_perf_stop b - b_perf_start b) = 9000000"
proof -
  from example_loop_finishes obtain st where
    eq: "loop argsort_stable example_args (length example_loader) 0 example_loader (init_state 10) = Inr st"
    by blast
  have g: "select_graph (model_input example_args) Map.empty = Inr (Some (Path ''model.onnx''))"
    by code_simp
  have ne: "example_loader \<noteq> []" by (simp add: example_loader_def)
  have s: "(\<Sum>b \<leftarrow> example_loader. b_perf_stop b - b_perf_start b) = 9000000" by code_simp
  have n: "length example_loader = 3" by code_simp
  have p: "printed (main argsort_stable example_args Map.empty 10 example_loader) ! 3 = AverageLatency 3"
    by code_simp
  from final_latency_formula[OF g ne eq] s n p show ?thesis by simp
qed

text \<open>
  Claim C8. A progress line is printed for the batches whose zero-based index is a
  multiple of \<open>print_freq\<close>, and for no other: after a loop that finishes, the indices of
  the progress lines are the multiples of \<open>print_freq\<close> below the number of batches, in
  order, and nothing else was printed in the loop. So a non-empty run starts with the line
  of batch 0, and \<open>print_freq = 1\<close> gives one line per batch. When an exception ends the
  loop in batch \<open>k\<close>, the lines printed are those of the multiples below \<open>k\<close>.
\<close>

theorem progress_lines_at_multiples:
  "(\<forall>st. loop asort a (length loader) 0 loader (init_state t0) = Inr st \<longrightarrow>
      progress_indices (stdout st) = filter (\<lambda>i. print_freq a dvd int i) [0..<length loader]
      \<and> length (stdout st) = length (progress_indices (stdout st))
      \<and> (loader \<noteq> [] \<longrightarrow> hd (progress_indices (stdout st)) = 0 \<and> stdout st \<noteq> [])
      \<and> (print_freq a = 1 \<longrightarrow> progress_indices (stdout st) = [0..<length loader]))
   \<and> (\<forall>e out. loop asort a (length loader) 0 loader (init_state t0) = Inl (e, out) \<longrightarrow>
        (\<exists>k < length loader.
           progress_indices out = filter (\<lambda>i. print_freq a dvd int i) [0..<k]))"
proof (intro conjI allI impI)
  fix st assume fin: "loop asort a (length loader) 0 loader (init_state t0) = Inr st"
  from loop_stdout[OF fin]
  have ix: "progress_indices (stdout st) = filter (\<lambda>i. print_freq a dvd int i) [0..<length loader]"
    and ln: "length (stdout st) = length (filter (\<lambda>i. print_freq a dvd int i) [0..<length loader])"
    by (simp_all add: init_state_def)
  show "progress_indices (stdout st) = filter (\<lambda>i. print_freq a dvd int i) [0..<length loader]"
    by (rule ix)
  show "length (stdout st) = length (progress_indices (stdout st))"
    using ix ln by simp
  show "print_freq a = 1 \<Longrightarrow> progress_indices (stdout st) = [0..<length loader]"
    using ix by simp
  {
    assume ne: "loader \<noteq> []"
    then have "[0..<length loader] = 0 # [1..<length loader]"
      by (simp add: upt_conv_Cons)
    then have f: "filter (\<lambda>i. print_freq a dvd int i) [0..<length loader]
        = 0 # filter (\<lambda>i. print_freq a dvd int i) [1..<length loader]"
      by simp
    show "hd (progress_indices (stdout st)) = 0" using ix f by simp
    show "stdout st \<noteq> []" using ln f by auto
  }
next
  fix e out assume "loop asort a (length loader) 0 loader (init_state t0) = Inl (e, out)"
  from loop_stdout_raised[OF this]
  show "\<exists>k < length loader. progress_indices out = filter (\<lambda>i. print_freq a dvd int i) [0..<k]"
    by (simp add: init_state_def)
qed

text \<open>Three batches with \<open>print_freq = 2\<close>: the lines of batches 0 and 2.\<close>

theorem progress_lines_at_multiples_witness:
  "\<exists>st. loop argsort_stable example_args (length example_loader) 0 example_loader (init_state 10) = Inr st
     \<and> print_freq example_args = 2 \<and> length example_loader = 3
     \<and> progress_indices (stdout st) = [0, 2] \<and> length (stdout st) = 2"
proof -
  from example_loop_finishes obtain st where
    eq: "loop argsort_stable example_args (length example_loader) 0 example_loader (init_state 10) = Inr st"
    by blast
  have n: "length example_loader = 3" by code_simp
  have pf: "print_freq example_args = 2" by code_simp
  have f: "filter (\<lambda>i. (2::int) dvd int i) [0..<3] = [0, 2]" by code_simp
  from progress_lines_at_multiples[of argsort_stable example_args example_loader 10] eq
  have "progress_indices (stdout st) = filter (\<lambda>i. print_freq example_args dvd int i) [0..<length example_loader]"
    and "length (stdout st) = length (progress_indices (stdout st))"
    by blast+
  then show ?thesis using eq n pf f by simp
qed

text \<open>What the two values of the progress line are, for any batch size and average.\<close>

lemma rate_and_ms_avg:
  assumes "n \<noteq> 0" and "x \<noteq> 0"
  shows "rate_avg n (Fl x) = Inr (Fl (of_nat n / x))"
    and "ms_avg n (Fl x) = Inr (Fl (100 * x / of_nat n))"
  using assms by (simp_all add: rate_avg_def ms_avg_def of_pyint_def)

text \<open>
  Claim C1 says that the progress line reports the average per-sample latency in ms, the
  average batch time over the batch size times 1000, and the throughput
  \<open>batch_size / avg_batch_time\<close>. Line 162 multiplies by 100. For one batch of four
  samples that takes 2 s the line holds the throughput 2 samples/s and, under
  \<open>ms/sample\<close>, 50 where 2 / 4 * 1000 is 500.
\<close>

theorem progress_line_ms_avg_is_100_times:
  "printed (main argsort_stable \<lparr>model_input = ''model.onnx'', print_freq = 1\<rparr> Map.empty 10
      [four_sample_batch]) ! 0 =
     Progress \<lparr>p_index = 0, p_total = 1, p_time_val = Fl 2, p_time_avg = Fl 2,
        p_rate_avg = Fl 2, p_ms_avg = Fl 50, p_top1_val = Fl 100, p_top1_avg = Fl 100,
        p_top5_val = Fl 100, p_top5_avg = Fl 100\<rparr>"
  by code_simp

subsection \<open>The claims about the model artifact and the end of the run\<close>

lemma dfg_not_onnx: "suffix ''.dfg'' p \<Longrightarrow> \<not> suffix ''.onnx'' p"
proof
  assume "suffix ''.dfg'' p" and "suffix ''.onnx'' p"
  then obtain u w where "p = u @ ''.dfg''" and "p = w @ ''.onnx''"
    by (auto simp: suffix_def)
  then have "last (u @ ''.dfg'') = last (w @ ''.onnx'')" by simp
  then show False by simp
qed

lemma session_graph_main:
  "select_graph (model_input a) fs = Inr (Some g) \<Longrightarrow>
     session_graph (main asort a fs t0 loader) = Some g"
  by (simp add: main_def Let_def split: sum.splits prod.splits)

text \<open>
  Claim C9. When the path given as \<open>--model-input\<close> ends in \<open>.dfg\<close>, the contents of the
  file are read as bytes and these bytes are what \<open>session.create\<close> is called with; when
  it ends in \<open>.onnx\<close>, the path itself is what \<open>session.create\<close> is called with.
\<close>

theorem session_gets_bytes_or_path:
  "(suffix ''.dfg'' (model_input a) \<longrightarrow> fs (model_input a) = Some bytes \<longrightarrow>
      session_graph (main asort a fs t0 loader) = Some (Bytes bytes))
   \<and> (suffix ''.onnx'' (model_input a) \<longrightarrow>
      session_graph (main asort a fs t0 loader) = Some (Path (model_input a)))"
proof (intro conjI impI)
  assume d: "suffix ''.dfg'' (model_input a)" and f: "fs (model_input a) = Some bytes"
  from d have "\<not> suffix ''.onnx'' (model_input a)" by (rule dfg_not_onnx)
  with d f have "select_graph (model_input a) fs = Inr (Some (Bytes bytes))"
    by (simp add: select_graph_def ebind_def)
  then show "session_graph (main asort a fs t0 loader) = Some (Bytes bytes)"
    by (rule session_graph_main)
next
  assume x: "suffix ''.onnx'' (model_input a)"
  then have "\<not> suffix ''.dfg'' (model_input a)" using dfg_not_onnx by blast
  with x have "select_graph (model_input a) fs = Inr (Some (Path (model_input a)))"
    by (simp add: select_graph_def ebind_def)
  then show "session_graph (main asort a fs t0 loader) = Some (Path (model_input a))"
    by (rule session_graph_main)
qed

theorem session_gets_bytes_or_path_witness:
  "session_graph (main argsort_stable \<lparr>model_input = ''model.dfg'', print_freq = 2\<rparr>
      [''model.dfg'' \<mapsto> [0x44, 0x46, 0x47]] 10 example_loader) = Some (Bytes [0x44, 0x46, 0x47])
   \<and> session_graph (main argsort_stable \<lparr>model_input = ''model.onnx'', print_freq = 2\<rparr>
      [''model.dfg'' \<mapsto> [0x44, 0x46, 0x47]] 10 example_loader) = Some (Path ''model.onnx'')"
proof -
  have d: "suffix ''.dfg'' ''model.dfg''" by (simp add: suffix_def)
  have x: "suffix ''.onnx'' ''model.onnx''" by (simp add: suffix_def)
  from session_gets_bytes_or_path[of "\<lparr>model_input = ''model.dfg'', print_freq = 2\<rparr>"
      "[''model.dfg'' \<mapsto> [0x44, 0x46, 0x47]]" "[0x44, 0x46, 0x47]" argsort_stable 10 example_loader]
    session_gets_bytes_or_path[of "\<lparr>model_input = ''model.onnx'', print_freq = 2\<rparr>"
      "[''model.dfg'' \<mapsto> [0x44, 0x46, 0x47]]" "[]" argsort_stable 10 example_loader]
    d x
  show ?thesis by simp
qed

text \<open>
  Claim C2, amended. When the loader yields no batch (and the model path has a known
  extension and can be read), the run prints the summary line of the untouched meters and
  ends with the \<open>ZeroDivisionError\<close> that \<open>elapsed_time / total_predictions\<close> raises at the
  final latency computation. The script has no error of its own for an empty loader.
\<close>

theorem empty_loader_zero_division:
  assumes g: "select_graph (model_input a) fs = Inr (Some g)"
  shows "main asort a fs t0 [] =
     \<lparr>printed = [Summary (Fl 0) (Fl 100) (Fl 0) (Fl 100)],
      raised = Some ZeroDivisionError, session_graph = Some g\<rparr>"
  using g by (simp add: main_def init_state_def AverageMeter_init_def summary_line_def latency_line_def)

text \<open>
  The claim as stated fails: on an empty loader the exception that ends the run is the
  language's division fault.
\<close>

theorem empty_loader_counterexample:
  "raised (main argsort_stable \<lparr>model_input = ''model.onnx'', print_freq = 500\<rparr> Map.empty 10
      ([] :: rat batch list)) = Some ZeroDivisionError"
  by code_simp

theorem empty_loader_zero_division_witness:
  "main argsort_stable \<lparr>model_input = ''model.onnx'', print_freq = 500\<rparr> Map.empty 10 ([] :: rat batch list) =
     \<lparr>printed = [Summary (Fl 0) (Fl 100) (Fl 0) (Fl 100)],
      raised = Some ZeroDivisionError, session_graph = Some (Path ''model.onnx'')\<rparr>"
proof -
  have "select_graph (model_input \<lparr>model_input = ''model.onnx'', print_freq = 500\<rparr>) Map.empty
      = Inr (Some (Path ''model.onnx''))"
    by code_simp
  from empty_loader_zero_division[OF this] show ?thesis .
qed

text \<open>Any path with neither extension ends the run before the session is created.\<close>

lemma main_unknown_extension:
  assumes "\<not> suffix ''.dfg'' (model_input a)" and "\<not> suffix ''.onnx'' (model_input a)"
  shows "main asort a fs t0 loader =
     \<lparr>printed = [], raised = Some UnboundLocalError, session_graph = None\<rparr>"
  using assms by (simp add: main_def select_graph_def ebind_def)

text \<open>
  Claim C3 says that a path ending in neither \<open>.dfg\<close> nor \<open>.onnx\<close> gives an explicit
  "unsupported model format" error. The script has no branch for such a path: neither
  \<open>if\<close> binds \<open>graph\<close>, and the run goes on to \<open>session.create(graph)\<close>, where reading the
  unbound variable raises \<open>UnboundLocalError\<close>. So it does for \<open>model.pb\<close> and for the
  default value of the argument, the empty string.
\<close>

theorem unknown_extension_unbound_graph:
  "main argsort_stable \<lparr>model_input = ''model.pb'', print_freq = 500\<rparr> Map.empty 10 example_loader =
     \<lparr>printed = [], raised = Some UnboundLocalError, session_graph = None\<rparr>
   \<and> main argsort_stable \<lparr>model_input = '''', print_freq = 500\<rparr> Map.empty 10 example_loader =
     \<lparr>printed = [], raised = Some UnboundLocalError, session_graph = None\<rparr>"
  by code_simp

end
